theory Spec2Isabelle
  imports Complex_Main "HOL-Library.AList"
begin

section \<open>Connection Lifecycle Manager (client, \<open>SSEContextProvider\<close>)\<close>

text \<open>
  The provider keeps its state in React refs and one \<open>useState\<close> cell. Every handler
  (effect, timer callback, transport callback, platform listener) runs to completion on the
  single event loop, so a handler is one state transformer on the record below.

  EventSource objects live in a heap, \<open>transports\<close>: the object created by the
  \<open>n\<close>-th \<open>new EventSourceCtor(...)\<close> is index \<open>n\<close>, and the list holds its
  \<open>readyState\<close>. A handle is such an index; \<open>eventSourceRef\<close> is \<open>None\<close> for
  \<open>null\<close>. A pending \<open>window.setTimeout\<close> is represented by the delay it was armed with.
  JavaScript numbers are modelled as exact integers and rationals.
\<close>

datatype readyState = CONNECTING | OPEN | CLOSED

record manager =
  instanceId :: int
  eventSourceRef :: "nat option"
  retryTimerRef :: "rat option"
  attemptCountRef :: int
  hiddenAtRef :: "int option"
  backgroundThresholdRef :: int
  transports :: "readyState list"
  beacons :: nat

text \<open>State after the first render: \<open>useState(0)\<close>, \<open>useRef(null)\<close>, \<open>useRef(0)\<close>.\<close>

definition initial :: "int \<Rightarrow> manager" where
  "initial backgroundThresholdMs =
     \<lparr> instanceId = 0, eventSourceRef = None, retryTimerRef = None, attemptCountRef = 0,
       hiddenAtRef = None, backgroundThresholdRef = backgroundThresholdMs,
       transports = [], beacons = 0 \<rparr>"

text \<open>\<open>es.close()\<close>: the object's \<open>readyState\<close> becomes 2.\<close>

definition es_close :: "nat \<Rightarrow> manager \<Rightarrow> manager" where
  "es_close h s = s\<lparr>transports := (transports s)[h := CLOSED]\<rparr>"

definition clearRetryTimer :: "manager \<Rightarrow> manager" where
  "clearRetryTimer s =
     (case retryTimerRef s of
        None \<Rightarrow> s
      | Some t \<Rightarrow> s\<lparr>retryTimerRef := None\<rparr>)"

definition closeCurrent :: "manager \<Rightarrow> manager" where
  "closeCurrent s =
     (case eventSourceRef s of
        None \<Rightarrow> s
      | Some h \<Rightarrow> (es_close h s)\<lparr>eventSourceRef := None\<rparr>)"

text \<open>
  \<open>connect\<close>. The flag \<open>urlOk\<close> says whether \<open>new URL(host + path)\<close> and the
  EventSource constructor return; when they throw, the handler is abandoned after the three
  statements that precede them. Otherwise the new object (index \<open>length (transports s)\<close>,
  state CONNECTING) is stored in the ref and the \<open>setInstanceId\<close> updater \<open>id + 1\<close> is
  applied, all inside this one handler.
\<close>

definition connect :: "bool \<Rightarrow> manager \<Rightarrow> manager" where
  "connect urlOk s =
     (let s1 = clearRetryTimer (closeCurrent s);
          s2 = s1\<lparr>attemptCountRef := attemptCountRef s1 + 1\<rparr>
      in if \<not> urlOk then s2
         else
           let es = length (transports s2);
               s3 = s2\<lparr>transports := transports s2 @ [CONNECTING]\<rparr>;
               s4 = s3\<lparr>eventSourceRef := Some es\<rparr>
           in s4\<lparr>instanceId := instanceId s4 + 1\<rparr>)"

text \<open>\<open>es.onopen\<close>: resets the backoff counter, nothing else.\<close>

definition onopen :: "manager \<Rightarrow> manager" where
  "onopen s = s\<lparr>attemptCountRef := 0\<rparr>"

text \<open>The delay expression of \<open>es.onerror\<close>;
  \<open>Math.pow(2, e)\<close> for an integer \<open>e\<close> is \<open>2 powi e\<close>, a fraction when \<open>e\<close> is negative.\<close>

definition backoff_delay :: "int \<Rightarrow> rat" where
  "backoff_delay attempt = min 30000 (1000 * (2 powi (min (attempt - 1) 5)))"

text \<open>\<open>es.onerror\<close> of the object \<open>es\<close> captured by the closure.\<close>

definition onerror :: "nat \<Rightarrow> manager \<Rightarrow> manager" where
  "onerror es s =
     (let s1 = (es_close es s)\<lparr>eventSourceRef := None\<rparr>;
          attempt = attemptCountRef s1;
          delay = backoff_delay attempt;
          s2 = clearRetryTimer s1
      in s2\<lparr>retryTimerRef := Some delay\<rparr>)"

subsection \<open>Platform listeners\<close>

datatype visibilityState = hidden | visible | prerender

text \<open>\<open>es.readyState\<close> of a handle. Every handle the manager stores was allocated by
  \<open>connect\<close>, so the index is in range; the other branch is never taken.\<close>

definition readyStateOf :: "manager \<Rightarrow> nat \<Rightarrow> readyState" where
  "readyStateOf s h = (if h < length (transports s) then transports s ! h else CLOSED)"

definition onVisibilityChange :: "visibilityState \<Rightarrow> int \<Rightarrow> bool \<Rightarrow> manager \<Rightarrow> manager" where
  "onVisibilityChange vs now urlOk s =
     (case vs of
        hidden \<Rightarrow> s\<lparr>hiddenAtRef := Some now\<rparr>
      | prerender \<Rightarrow> s
      | visible \<Rightarrow>
          (let es = eventSourceRef s;
               hiddenAt = hiddenAtRef s;
               s1 = s\<lparr>hiddenAtRef := None\<rparr>
           in if (case es of None \<Rightarrow> True | Some h \<Rightarrow> readyStateOf s1 h = CLOSED)
              then connect urlOk (clearRetryTimer s1)
              else (case hiddenAt of
                      None \<Rightarrow> s1
                    | Some t \<Rightarrow>
                        (let hiddenDuration = now - t;
                             threshold = backgroundThresholdRef s1
                         in if threshold = 0 \<or> hiddenDuration > threshold
                            then connect urlOk (clearRetryTimer (closeCurrent s1))
                            else s1))))"

definition onOnline :: "bool \<Rightarrow> manager \<Rightarrow> manager" where
  "onOnline urlOk s = connect urlOk (clearRetryTimer (closeCurrent s))"

definition sendBeacon :: "manager \<Rightarrow> manager" where
  "sendBeacon s = s\<lparr>beacons := Suc (beacons s)\<rparr>"

definition onPageHide :: "bool \<Rightarrow> manager \<Rightarrow> manager" where
  "onPageHide persisted s = (if persisted then s else closeCurrent (sendBeacon s))"

definition onBeforeUnload :: "manager \<Rightarrow> manager" where
  "onBeforeUnload s = closeCurrent (sendBeacon s)"

text \<open>The cleanup function of the lifecycle effect.\<close>

definition cleanup :: "manager \<Rightarrow> manager" where
  "cleanup s = closeCurrent (clearRetryTimer s)"

subsection \<open>The event loop\<close>

text \<open>
  One event is one handler invocation. The transport raises \<open>open\<close> only while the object is
  CONNECTING (and sets it OPEN first) and raises \<open>error\<close> only on an object that has not been
  closed; a closed EventSource dispatches nothing. The retry callback runs only while its
  timeout is pending. An event whose guard fails does not occur, so it leaves the state as
  it is.
\<close>

datatype event =
    EffectRun bool
  | Open nat
  | Error nat
  | RetryFired bool
  | VisibilityChange visibilityState int bool
  | Online bool
  | PageHide bool
  | BeforeUnload
  | Cleanup

fun step :: "manager \<Rightarrow> event \<Rightarrow> manager" where
  "step s (EffectRun urlOk) = connect urlOk s"
| "step s (Open h) =
     (if h < length (transports s) \<and> transports s ! h = CONNECTING
      then onopen (s\<lparr>transports := (transports s)[h := OPEN]\<rparr>) else s)"
| "step s (Error h) =
     (if h < length (transports s) \<and> transports s ! h \<noteq> CLOSED then onerror h s else s)"
| "step s (RetryFired urlOk) =
     (case retryTimerRef s of None \<Rightarrow> s | Some d \<Rightarrow> connect urlOk s)"
| "step s (VisibilityChange vs now urlOk) = onVisibilityChange vs now urlOk s"
| "step s (Online urlOk) = onOnline urlOk s"
| "step s (PageHide persisted) = onPageHide persisted s"
| "step s BeforeUnload = onBeforeUnload s"
| "step s Cleanup = cleanup s"

text \<open>The lifecycle effect calls \<open>connect()\<close> on mount (and again whenever React re-runs
  it, \<open>EffectRun\<close>); then events arrive in any order.\<close>

definition mounted :: "int \<Rightarrow> bool \<Rightarrow> manager" where
  "mounted backgroundThresholdMs urlOk = connect urlOk (initial backgroundThresholdMs)"

definition run :: "manager \<Rightarrow> event list \<Rightarrow> manager" where
  "run s evs = foldl step s evs"

subsection \<open>Observations on manager states\<close>

text \<open>The transports that have been created and not closed.\<close>

definition live_transports :: "manager \<Rightarrow> nat list" where
  "live_transports s = filter (\<lambda>h. transports s ! h \<noteq> CLOSED) [0..<length (transports s)]"

text \<open>
  The invariant of the event loop: a transport that is not closed is the one the ref
  holds; the ref holds the transport created last; and the generation counter is the
  number of transports created so far.
\<close>

definition consistent :: "manager \<Rightarrow> bool" where
  "consistent s =
     (set (live_transports s) \<subseteq> set_option (eventSourceRef s)
      \<and> (case eventSourceRef s of None \<Rightarrow> True | Some h \<Rightarrow> Suc h = length (transports s))
      \<and> instanceId s = int (length (transports s)))"

text \<open>
  A run of \<open>k\<close> connection attempts that all fail: each attempt is a \<open>connect\<close>
  followed by the error callback of the transport it created (the handle then in the ref).
\<close>

fun failed_attempts :: "nat \<Rightarrow> manager \<Rightarrow> manager" where
  "failed_attempts 0 s = s"
| "failed_attempts (Suc k) s =
     (let s1 = connect True (failed_attempts k s)
      in case eventSourceRef s1 of None \<Rightarrow> s1 | Some es \<Rightarrow> onerror es s1)"

section \<open>JavaScript values\<close>

text \<open>
  A JavaScript number is a finite value, \<open>NaN\<close> or an infinity; finite values are taken
  exactly (the rounding of doubles beyond \<open>2^53\<close> is not represented). Objects are
  association lists of properties. The built-in conversions \<open>Number(v)\<close> and
  \<open>String(v)\<close> and \<open>JSON.parse\<close> are not part of the repository; the functions below take
  them as parameters \<open>toNumber\<close>, \<open>toString\<close> and \<open>parse\<close>.
\<close>

datatype jsnumber = Fin rat | NaN | PosInfinity | NegInfinity

datatype jv =
    JUndefined
  | JNull
  | JBool bool
  | JNum rat
  | JStr string
  | JArr "jv list"
  | JObj "(string \<times> jv) list"

type_synonym obj = "(string \<times> jv) list"

definition isFinite :: "jsnumber \<Rightarrow> bool" where
  "isFinite n = (case n of Fin r \<Rightarrow> True | _ \<Rightarrow> False)"

text \<open>Property read \<open>o.k\<close> on an object: \<open>undefined\<close> when the property is missing.\<close>

definition prop_of :: "obj \<Rightarrow> string \<Rightarrow> jv" where
  "prop_of ob k = (case map_of ob k of None \<Rightarrow> JUndefined | Some v \<Rightarrow> v)"

text \<open>The operator \<open>a ?? b\<close>.\<close>

definition nullish :: "jv \<Rightarrow> jv \<Rightarrow> jv" where
  "nullish a b = (case a of JUndefined \<Rightarrow> b | JNull \<Rightarrow> b | _ \<Rightarrow> a)"

text \<open>Object spread \<open>{...a, ...b}\<close>: the properties of \<open>b\<close> are assigned in order; an
  existing property keeps its place and takes the new value, a new one is appended.\<close>

definition spread :: "obj \<Rightarrow> obj \<Rightarrow> obj" where
  "spread a b = fold (\<lambda>(k, v). AList.update k v) b a"

section \<open>Stream emitter (server, \<open>server.ts\<close>)\<close>

text \<open>
  The Express request, as far as the handler reads it. \<open>headers\<close> maps a lower-case header
  name to its value (\<open>None\<close> for \<open>undefined\<close>); \<open>query\<close> is the parsed query object, whose
  properties are strings, arrays or nested objects; \<open>httpMethod\<close> is \<open>req.method\<close>.
\<close>

record request =
  headers :: "string \<Rightarrow> string option"
  query :: obj
  ip :: jv
  ips :: "string list"
  httpVersion :: string
  httpMethod :: string
  path :: string

text \<open>\<open>parseLastEventId\<close>. The result is always a finite number and is given by its value.\<close>

definition parseLastEventId :: "(jv \<Rightarrow> jsnumber) \<Rightarrow> request \<Rightarrow> rat" where
  "parseLastEventId toNumber req =
     (let q = prop_of (query req) ''lastEventId'';
          h = headers req ''last-event-id'';
          n1 = (case h of Some x \<Rightarrow> toNumber (JStr x) | None \<Rightarrow> NaN);
          n2 = (case q of JStr x \<Rightarrow> toNumber (JStr x) | _ \<Rightarrow> NaN)
      in case n1 of
           Fin r1 \<Rightarrow> r1
         | _ \<Rightarrow> (case n2 of Fin r2 \<Rightarrow> r2 | _ \<Rightarrow> 0))"

text \<open>A header value as it appears in an object literal.\<close>

definition hdr :: "request \<Rightarrow> string \<Rightarrow> jv" where
  "hdr req k = (case headers req k of None \<Rightarrow> JUndefined | Some x \<Rightarrow> JStr x)"

definition hasCookieHeader :: "request \<Rightarrow> bool" where
  "hasCookieHeader req =
     (case headers req ''cookie'' of None \<Rightarrow> False | Some c \<Rightarrow> length c > 0)"

definition cookieBytes :: "request \<Rightarrow> nat" where
  "cookieBytes req = (case headers req ''cookie'' of None \<Rightarrow> 0 | Some c \<Rightarrow> length c)"

definition buildRequestDebug :: "request \<Rightarrow> obj" where
  "buildRequestDebug req =
     [ (''host'', hdr req ''host''),
       (''origin'', hdr req ''origin''),
       (''referer'', hdr req ''referer''),
       (''userAgent'', hdr req ''user-agent''),
       (''secChUa'', hdr req ''sec-ch-ua''),
       (''secChUaMobile'', hdr req ''sec-ch-ua-mobile''),
       (''secChUaPlatform'', hdr req ''sec-ch-ua-platform''),
       (''secFetchDest'', hdr req ''sec-fetch-dest''),
       (''secFetchMode'', hdr req ''sec-fetch-mode''),
       (''secFetchSite'', hdr req ''sec-fetch-site''),
       (''accept'', hdr req ''accept''),
       (''acceptLanguage'', hdr req ''accept-language''),
       (''acceptEncoding'', hdr req ''accept-encoding''),
       (''cacheControl'', hdr req ''cache-control''),
       (''pragma'', hdr req ''pragma''),
       (''connection'', hdr req ''connection''),
       (''dnt'', hdr req ''dnt''),
       (''hasCookieHeader'', JBool (hasCookieHeader req)),
       (''cookieBytes'', JNum (of_nat (cookieBytes req))),
       (''ip'', ip req),
       (''ips'', JArr (map JStr (ips req))),
       (''httpVersion'', JStr (httpVersion req)),
       (''method'', JStr (httpMethod req)),
       (''path'', JStr (path req)),
       (''query'', JObj (query req)) ]"

text \<open>The readings of one \<open>new Date()\<close> (\<open>toLocalString\<close> is its \<open>toString()\<close>), and
  \<open>timestamps()\<close> built from them.\<close>

record jsdate =
  toISOString :: string
  toLocalString :: string
  getTimezoneOffset :: int
  getTime :: int

definition timestamps :: "jsdate \<Rightarrow> obj" where
  "timestamps d =
     [ (''utcIso'', JStr (toISOString d)),
       (''localIso'', JStr (toLocalString d)),
       (''tzOffsetMinutes'', JNum (of_int (- getTimezoneOffset d))),
       (''epochMs'', JNum (of_int (getTime d))) ]"

text \<open>
  What \<open>res.write\<close> has been given, in order. The three writes of \<open>writeEvent\<close> are kept
  structured: \<open>IdLine n\<close> is the text \<open>id: n\<close>, \<open>EventLine e\<close> the text \<open>event: e\<close> and
  \<open>DataLine p\<close> the text \<open>data:\<close> followed by \<open>JSON.stringify(p)\<close> and the blank line.
\<close>

datatype EventName = connected | task | notification

datatype chunk =
    Text string
  | IdLine rat
  | EventLine EventName
  | DataLine obj

text \<open>
  The state of one accepted connection: the closure variables of the route handler, the
  response stream, and which of the three timers are armed. \<open>hb\<close> is \<open>False\<close> both when
  the heartbeat interval was never created (\<open>null\<close>) and after it was cleared.
\<close>

record conn =
  out :: "chunk list"
  writableEnded :: bool
  connectionId :: string
  clientLastEventId :: rat
  nextId :: rat
  requestDebug :: obj
  closeAfter :: jsnumber
  safeInterval :: rat
  sentBusinessEvents :: int
  connectedRepeat :: bool
  timer :: bool
  hb :: bool

definition res_write :: "chunk list \<Rightarrow> conn \<Rightarrow> conn" where
  "res_write cs c = c\<lparr>out := out c @ cs\<rparr>"

definition writeComment :: "string \<Rightarrow> conn \<Rightarrow> conn" where
  "writeComment comment c =
     res_write [Text ('': '' @ comment @ [CHR 0x0A, CHR 0x0A])] c"

text \<open>\<open>writeEvent\<close>; the returned id is not used by any caller and is left out.\<close>

definition writeEvent :: "EventName \<Rightarrow> obj \<Rightarrow> jsdate \<Rightarrow> conn \<Rightarrow> conn" where
  "writeEvent ev data d c =
     (let c1 = c\<lparr>nextId := nextId c + 1\<rparr>;
          ident = nextId c1;
          payload = spread (spread [(''connectionId'', JStr (connectionId c1))] data)
                      (timestamps d)
      in res_write [IdLine ident, EventLine ev, DataLine payload] c1)"

definition connected_data :: "conn \<Rightarrow> obj" where
  "connected_data c =
     [ (''type'', JStr ''connected''),
       (''lastEventId'', JNum (clientLastEventId c)),
       (''clientLastEventId'', JNum (clientLastEventId c)),
       (''request'', JObj (requestDebug c)) ]"

definition connected_repeat_data :: "conn \<Rightarrow> obj" where
  "connected_repeat_data c =
     [ (''type'', JStr ''connected''),
       (''clientLastEventId'', JNum (clientLastEventId c)),
       (''request'', JObj (requestDebug c)) ]"

text \<open>The test \<open>closeAfter > 0 && sentBusinessEvents >= closeAfter\<close>.\<close>

definition cap_reached :: "jsnumber \<Rightarrow> int \<Rightarrow> bool" where
  "cap_reached cap sent =
     (case cap of Fin r \<Rightarrow> r > 0 \<and> of_int sent \<ge> r | _ \<Rightarrow> False)"

text \<open>
  The synchronous part of the route handler \<open>GET /v1/sse/connect\<close>: padding, retry hint,
  the first "connected" record, and the three timers. \<open>cid\<close> is the generated connection
  id and \<open>d\<close> the clock reading used by the first record. Response headers are not
  represented.
\<close>

definition sse_connect ::
  "(jv \<Rightarrow> jsnumber) \<Rightarrow> (jv \<Rightarrow> string) \<Rightarrow> request \<Rightarrow> string \<Rightarrow> jsdate \<Rightarrow> conn" where
  "sse_connect toNumber toString req cid d =
     (let lastId = parseLastEventId toNumber req;
          intervalMs = toNumber (nullish (prop_of (query req) ''intervalMs'') (JNum 4000));
          cap = toNumber (nullish (prop_of (query req) ''closeAfter'') (JNum 0));
          heartbeatOn = (toString (nullish (prop_of (query req) ''heartbeat'') (JStr ''1''))
                           \<noteq> ''0'');
          c0 = \<lparr> out = [Text (CHR '':'' # replicate 2048 CHR '' '' @ [CHR 0x0A]),
                       Text (''retry: 3000'' @ [CHR 0x0A, CHR 0x0A])],
                 writableEnded = False,
                 connectionId = cid,
                 clientLastEventId = lastId,
                 nextId = lastId,
                 requestDebug = buildRequestDebug req,
                 closeAfter = cap,
                 safeInterval = (case intervalMs of
                                   Fin r \<Rightarrow> if r > 0 then r else 4000
                                 | _ \<Rightarrow> 4000),
                 sentBusinessEvents = 0,
                 connectedRepeat = True,
                 timer = True,
                 hb = heartbeatOn \<rparr>
      in writeEvent connected (connected_data c0) d c0)"

text \<open>The values drawn from \<open>Math.random\<close> and the faker templates in one timer tick.\<close>

record draw =
  isTask :: bool
  ident36 :: string
  title :: string
  amount :: int
  severity :: string

definition on_timer :: "draw \<Rightarrow> jsdate \<Rightarrow> conn \<Rightarrow> conn" where
  "on_timer r d c =
     (let c1 = (if isTask r
                then writeEvent task
                       [ (''type'', JStr ''task''),
                         (''taskId'', JStr (''t-'' @ ident36 r)),
                         (''title'', JStr (title r)),
                         (''amount'', JNum (of_int (amount r))) ] d c
                else writeEvent notification
                       [ (''type'', JStr ''notification''),
                         (''notificationId'', JStr (''n-'' @ ident36 r)),
                         (''title'', JStr (title r)),
                         (''severity'', JStr (severity r)) ] d c);
          c2 = c1\<lparr>sentBusinessEvents := sentBusinessEvents c1 + 1\<rparr>
      in if cap_reached (closeAfter c2) (sentBusinessEvents c2)
         then c2\<lparr>timer := False, hb := False, writableEnded := True\<rparr>
         else c2)"

definition on_connectedRepeat :: "jsdate \<Rightarrow> conn \<Rightarrow> conn" where
  "on_connectedRepeat d c =
     (if \<not> writableEnded c then writeEvent connected (connected_repeat_data c) d c else c)"

definition on_heartbeat :: "jsdate \<Rightarrow> conn \<Rightarrow> conn" where
  "on_heartbeat d c = writeComment (''ping '' @ toISOString d) c"

definition on_close :: "conn \<Rightarrow> conn" where
  "on_close c = c\<lparr>connectedRepeat := False, timer := False, hb := False\<rparr>"

text \<open>
  Timer and socket callbacks of one connection. A callback runs only while its timer is
  armed; the one-shot timeout disarms itself when it fires.
\<close>

datatype sev =
    RepeatFired jsdate
  | HeartbeatFired jsdate
  | TimerFired draw jsdate
  | ReqClose

fun serve :: "conn \<Rightarrow> sev \<Rightarrow> conn" where
  "serve c (RepeatFired d) =
     (if connectedRepeat c then on_connectedRepeat d (c\<lparr>connectedRepeat := False\<rparr>) else c)"
| "serve c (HeartbeatFired d) = (if hb c then on_heartbeat d c else c)"
| "serve c (TimerFired r d) = (if timer c then on_timer r d c else c)"
| "serve c ReqClose = on_close c"

definition serve_all :: "conn \<Rightarrow> sev list \<Rightarrow> conn" where
  "serve_all c evs = foldl serve c evs"


fun event_names :: "chunk list \<Rightarrow> EventName list" where
  "event_names [] = []"
| "event_names (EventLine e # cs) = e # event_names cs"
| "event_names (c # cs) = event_names cs"


definition application_records :: "chunk list \<Rightarrow> nat" where
  "application_records cs = length (filter (\<lambda>e. e \<noteq> connected) (event_names cs))"

definition timer_fires :: "sev list \<Rightarrow> nat" where
  "timer_fires evs = length (filter (\<lambda>e. case e of TimerFired r d \<Rightarrow> True | _ \<Rightarrow> False) evs)"


text \<open>
  Invariants of a connection with business-event cap \<open>n\<close>: the counter equals the number
  of application records written, the stream is ended exactly when the cap is reached, and
  an ended stream has no event or heartbeat timer left.
\<close>

definition cap_inv :: "nat \<Rightarrow> conn \<Rightarrow> bool" where
  "cap_inv n c =
     (closeAfter c = Fin (of_nat n)
      \<and> sentBusinessEvents c = int (application_records (out c))
      \<and> application_records (out c) \<le> n
      \<and> writableEnded c = (n \<le> application_records (out c))
      \<and> (\<not> (writableEnded c \<and> (timer c \<or> hb c))))"



section \<open>Consumer handler (client, \<open>TasksWidget\<close>)\<close>

datatype exn = SyntaxError | TypeError

text \<open>\<open>safeJsonParse\<close>: \<open>parse\<close> is \<open>JSON.parse\<close>, which returns a value or throws.\<close>

definition safeJsonParse :: "(string \<Rightarrow> exn + jv) \<Rightarrow> string \<Rightarrow> jv" where
  "safeJsonParse parse data = (case parse data of Inl e \<Rightarrow> JNull | Inr v \<Rightarrow> v)"

text \<open>JavaScript truthiness of a value.\<close>

fun truthy :: "jv \<Rightarrow> bool" where
  "truthy JUndefined = False"
| "truthy JNull = False"
| "truthy (JBool b) = b"
| "truthy (JNum n) = (n \<noteq> 0)"
| "truthy (JStr s) = (s \<noteq> [])"
| "truthy (JArr xs) = True"
| "truthy (JObj ob) = True"

text \<open>
  The read \<open>data.type\<close>: a TypeError on \<open>null\<close> and \<open>undefined\<close>, the property for an
  object, \<open>undefined\<close> for arrays and primitives, which have no such property.
\<close>

fun member_type :: "jv \<Rightarrow> exn + jv" where
  "member_type JUndefined = Inl TypeError"
| "member_type JNull = Inl TypeError"
| "member_type (JObj ob) = Inr (prop_of ob ''type'')"
| "member_type v = Inr JUndefined"

text \<open>The own enumerable properties copied by \<open>{...data}\<close>, for the values \<open>JSON.parse\<close>
  can return whose \<open>type\<close> is a string: objects.\<close>

fun own_props :: "jv \<Rightarrow> obj" where
  "own_props (JObj ob) = ob"
| "own_props v = []"

record tasksWidget =
  tasks :: "obj list"
  eventCount :: int
  errorCount :: int

text \<open>The listener \<open>handler\<close> of \<open>TasksWidget\<close>, with each state updater applied;
  \<open>receivedAt\<close> is the reading of \<open>Date.now()\<close>.\<close>

definition handler ::
  "(string \<Rightarrow> exn + jv) \<Rightarrow> tasksWidget \<Rightarrow> string \<times> int \<Rightarrow> exn + tasksWidget" where
  "handler parse w evt =
     (let receivedAt = snd evt;
          data = safeJsonParse parse (fst evt)
      in if \<not> truthy data then Inr (w\<lparr>errorCount := errorCount w + 1\<rparr>)
         else case member_type data of
                Inl e \<Rightarrow> Inl e
              | Inr t \<Rightarrow>
                  if t \<noteq> JStr ''task'' then Inr (w\<lparr>errorCount := errorCount w + 1\<rparr>)
                  else
                    let w1 = w\<lparr>eventCount := eventCount w + 1\<rparr>
                    in Inr (w1\<lparr>tasks :=
                          take 20 (spread (own_props data) [(''receivedAt'', JNum (of_int receivedAt))]
                                   # tasks w1)\<rparr>))"

text \<open>The transport dispatching a sequence of records to the listener; an exception
  escaping the listener would end the sequence.\<close>

fun dispatch ::
  "(string \<Rightarrow> exn + jv) \<Rightarrow> tasksWidget \<Rightarrow> (string \<times> int) list \<Rightarrow> exn + tasksWidget" where
  "dispatch parse w [] = Inr w"
| "dispatch parse w (evt # evts) =
     (case handler parse w evt of Inl e \<Rightarrow> Inl e | Inr w' \<Rightarrow> dispatch parse w' evts)"

text \<open>A record the listener accepts: its data parses and the \<open>type\<close> read from the
  parsed value is "task". Every other record is malformed for this listener.\<close>

definition well_formed_task :: "(string \<Rightarrow> exn + jv) \<Rightarrow> string \<times> int \<Rightarrow> bool" where
  "well_formed_task parse evt =
     (case parse (fst evt) of
        Inl e \<Rightarrow> False
      | Inr v \<Rightarrow> member_type v = Inr (JStr ''task''))"

section \<open>Concrete inputs for the examples\<close>

text \<open>
  Stand-ins for the built-in conversions that agree with JavaScript on the values the
  examples use (\<open>Number("42") = 42\<close>, \<open>Number("abc") = NaN\<close>, \<open>String("0") = "0"\<close>), a
  request as a command-line client sends it (no cookie, no resume point, no query), and
  one clock reading.
\<close>

definition example_Number :: "jv \<Rightarrow> jsnumber" where
  "example_Number v =
     (if v = JStr ''42'' then Fin 42
      else if v = JStr ''7'' then Fin 7
      else if v = JStr ''5'' then Fin 5
      else case v of JNum r \<Rightarrow> Fin r | _ \<Rightarrow> NaN)"

definition example_String :: "jv \<Rightarrow> string" where
  "example_String v = (case v of JStr x \<Rightarrow> x | _ \<Rightarrow> ''[object Object]'')"

definition example_request :: request where
  "example_request =
     \<lparr> headers = (\<lambda>k. if k = ''host'' then Some ''localhost:3001'' else None),
       query = [],
       ip = JStr ''127.0.0.1'',
       ips = [],
       httpVersion = ''1.1'',
       httpMethod = ''GET'',
       path = ''/v1/sse/connect'' \<rparr>"

definition example_date :: jsdate where
  "example_date =
     \<lparr> toISOString = ''2026-01-01T00:00:00.000Z'',
       toLocalString = ''Thu Jan 01 2026 00:00:00 GMT+0000'',
       getTimezoneOffset = 0,
       getTime = 1767225600000 \<rparr>"

text \<open>Three data lines and a stand-in for \<open>JSON.parse\<close> that is right on them and on
  \<open>null\<close>, and rejects the truncated text \<open>{oops\<close> as \<open>JSON.parse\<close> does.\<close>

definition quoted :: "string \<Rightarrow> string" where
  "quoted x = CHR 0x22 # x @ [CHR 0x22]"

definition task_json :: string where
  "task_json = ''{'' @ quoted ''type'' @ '':'' @ quoted ''task'' @ '',''
                 @ quoted ''taskId'' @ '':'' @ quoted ''t-1'' @ ''}''"

definition notification_json :: string where
  "notification_json = ''{'' @ quoted ''type'' @ '':'' @ quoted ''notification'' @ ''}''"

definition example_parse :: "string \<Rightarrow> exn + jv" where
  "example_parse x =
     (if x = task_json then Inr (JObj [(''type'', JStr ''task''), (''taskId'', JStr ''t-1'')])
      else if x = notification_json then Inr (JObj [(''type'', JStr ''notification'')])
      else if x = ''null'' then Inr JNull
      else Inl SyntaxError)"

definition example_widget :: tasksWidget where
  "example_widget = \<lparr> tasks = [], eventCount = 0, errorCount = 0 \<rparr>"

definition example_draw :: draw where
  "example_draw =
     \<lparr> isTask = True, ident36 = ''k3j9x2ab'', title = ''Verify payee: Acme'',
       amount = 4210, severity = ''INFO'' \<rparr>"

section \<open>Properties of the lifecycle manager\<close>

lemma consistent_iff:
  "consistent s \<longleftrightarrow>
     (\<forall>h < length (transports s). transports s ! h \<noteq> CLOSED \<longrightarrow> eventSourceRef s = Some h)
     \<and> (\<forall>h. eventSourceRef s = Some h \<longrightarrow> Suc h = length (transports s))
     \<and> instanceId s = int (length (transports s))"
  by (auto simp: consistent_def live_transports_def split: option.splits)

lemma consistent_clearRetryTimer: "consistent s \<Longrightarrow> consistent (clearRetryTimer s)"
  by (simp add: consistent_iff clearRetryTimer_def split: option.splits)

lemma consistent_closeCurrent: "consistent s \<Longrightarrow> consistent (closeCurrent s)"
  by (auto simp: consistent_iff closeCurrent_def es_close_def nth_list_update split: option.splits)

lemma closeCurrent_all_closed:
  "consistent s \<Longrightarrow> h < length (transports s) \<Longrightarrow> transports (closeCurrent s) ! h = CLOSED"
  by (auto simp: consistent_iff closeCurrent_def es_close_def nth_list_update split: option.splits)

lemma eventSourceRef_closeCurrent: "eventSourceRef (closeCurrent s) = None"
  by (simp add: closeCurrent_def es_close_def split: option.splits)

lemma eventSourceRef_clearRetryTimer: "eventSourceRef (clearRetryTimer s) = eventSourceRef s"
  by (simp add: clearRetryTimer_def split: option.splits)

lemma instanceId_clearRetryTimer: "instanceId (clearRetryTimer s) = instanceId s"
  by (simp add: clearRetryTimer_def split: option.splits)

lemma instanceId_closeCurrent: "instanceId (closeCurrent s) = instanceId s"
  by (simp add: closeCurrent_def es_close_def split: option.splits)

lemma transports_clearRetryTimer: "transports (clearRetryTimer s) = transports s"
  by (simp add: clearRetryTimer_def split: option.splits)

lemma length_transports_closeCurrent:
  "length (transports (closeCurrent s)) = length (transports s)"
  by (simp add: closeCurrent_def es_close_def split: option.splits)

lemma connect_True_fields:
  "transports (connect True s) = transports (closeCurrent s) @ [CONNECTING]"
  "eventSourceRef (connect True s) = Some (length (transports s))"
  "instanceId (connect True s) = instanceId s + 1"
  by (simp_all add: connect_def Let_def transports_clearRetryTimer
      length_transports_closeCurrent instanceId_clearRetryTimer instanceId_closeCurrent)

lemma connect_False_fields:
  "transports (connect False s) = transports (closeCurrent s)"
  "eventSourceRef (connect False s) = None"
  "instanceId (connect False s) = instanceId s"
  by (simp_all add: connect_def Let_def transports_clearRetryTimer
      eventSourceRef_clearRetryTimer eventSourceRef_closeCurrent
      instanceId_clearRetryTimer instanceId_closeCurrent)

lemma consistent_connect: "consistent s \<Longrightarrow> consistent (connect ok s)"
proof -
  assume c: "consistent s"
  have len: "instanceId s = int (length (transports s))"
    using c by (simp add: consistent_iff)
  have closed: "\<And>h. h < length (transports s) \<Longrightarrow> transports (closeCurrent s) ! h = CLOSED"
    using c by (rule closeCurrent_all_closed)
  show ?thesis
  proof (cases ok)
    case True
    have "\<And>h. h < Suc (length (transports s)) \<Longrightarrow>
            (transports (closeCurrent s) @ [CONNECTING]) ! h \<noteq> CLOSED \<Longrightarrow> length (transports s) = h"
      using closed by (simp add: nth_append length_transports_closeCurrent split: if_splits)
    then show ?thesis
      using True len
      by (simp add: consistent_iff connect_True_fields length_transports_closeCurrent)
  next
    case False
    then show ?thesis
      using len closed
      by (simp add: consistent_iff connect_False_fields length_transports_closeCurrent)
  qed
qed

lemma consistent_onopen_step:
  assumes "consistent s" "h < length (transports s)" "transports s ! h = CONNECTING"
  shows "consistent (onopen (s\<lparr>transports := (transports s)[h := OPEN]\<rparr>))"
proof -
  from assms have cur: "eventSourceRef s = Some h" by (simp add: consistent_iff)
  have "\<And>k. k < length (transports s) \<Longrightarrow> (transports s)[h := OPEN] ! k \<noteq> CLOSED \<Longrightarrow> k = h"
    using assms(1) cur by (auto simp: consistent_iff nth_list_update split: if_splits)
  then show ?thesis
    using assms(1) cur by (auto simp: consistent_iff onopen_def)
qed

lemma onerror_fields:
  "transports (onerror h s) = (transports s)[h := CLOSED]"
  "eventSourceRef (onerror h s) = None"
  "instanceId (onerror h s) = instanceId s"
  by (simp_all add: onerror_def Let_def es_close_def clearRetryTimer_def split: option.splits)

lemma consistent_onerror:
  assumes "consistent s" "h < length (transports s)" "transports s ! h \<noteq> CLOSED"
  shows "consistent (onerror h s)"
proof -
  from assms have cur: "eventSourceRef s = Some h" by (simp add: consistent_iff)
  have "\<And>k. k < length (transports s) \<Longrightarrow> (transports s)[h := CLOSED] ! k = CLOSED"
    using assms(1) cur by (auto simp: consistent_iff nth_list_update)
  then show ?thesis
    using assms(1) by (simp add: consistent_iff onerror_fields)
qed

lemma consistent_sendBeacon: "consistent s \<Longrightarrow> consistent (sendBeacon s)"
  by (simp add: consistent_iff sendBeacon_def)

lemma consistent_hiddenAt: "consistent s \<Longrightarrow> consistent (s\<lparr>hiddenAtRef := x\<rparr>)"
  by (simp add: consistent_iff)

lemma consistent_onVisibilityChange:
  "consistent s \<Longrightarrow> consistent (onVisibilityChange vs now ok s)"
  by (auto simp: onVisibilityChange_def Let_def consistent_hiddenAt consistent_connect
      consistent_clearRetryTimer consistent_closeCurrent
      split: visibilityState.splits option.splits)

lemma consistent_step: "consistent s \<Longrightarrow> consistent (step s e)"
proof (cases e)
  case (EffectRun ok)
  then show "consistent s \<Longrightarrow> ?thesis" by (simp add: consistent_connect)
next
  case (Open h)
  then show "consistent s \<Longrightarrow> ?thesis" by (simp add: consistent_onopen_step)
next
  case (Error h)
  then show "consistent s \<Longrightarrow> ?thesis" by (simp add: consistent_onerror)
next
  case (RetryFired ok)
  then show "consistent s \<Longrightarrow> ?thesis" by (simp add: consistent_connect split: option.splits)
next
  case (VisibilityChange vs now ok)
  then show "consistent s \<Longrightarrow> ?thesis" by (simp add: consistent_onVisibilityChange)
next
  case (Online ok)
  then show "consistent s \<Longrightarrow> ?thesis"
    by (simp add: onOnline_def consistent_connect consistent_clearRetryTimer consistent_closeCurrent)
next
  case (PageHide p)
  then show "consistent s \<Longrightarrow> ?thesis"
    by (simp add: onPageHide_def consistent_closeCurrent consistent_sendBeacon)
next
  case BeforeUnload
  then show "consistent s \<Longrightarrow> ?thesis"
    by (simp add: onBeforeUnload_def consistent_closeCurrent consistent_sendBeacon)
next
  case Cleanup
  then show "consistent s \<Longrightarrow> ?thesis"
    by (simp add: cleanup_def consistent_closeCurrent consistent_clearRetryTimer)
qed

lemma consistent_initial: "consistent (initial th)"
  by (simp add: consistent_iff initial_def)

lemma consistent_run: "consistent s \<Longrightarrow> consistent (run s evs)"
  unfolding run_def by (induction evs arbitrary: s) (simp_all add: consistent_step)

lemma consistent_reachable: "consistent (run (mounted th ok) evs)"
  by (simp add: consistent_run mounted_def consistent_connect consistent_initial)

lemma live_le_1:
  assumes "consistent s" shows "length (live_transports s) \<le> 1"
proof -
  have d: "distinct (live_transports s)" by (simp add: live_transports_def)
  have sub: "set (live_transports s) \<subseteq> set_option (eventSourceRef s)"
    using assms by (simp add: consistent_def)
  have "card (set_option (eventSourceRef s)) \<le> 1"
    by (cases "eventSourceRef s") simp_all
  moreover have "card (set (live_transports s)) \<le> card (set_option (eventSourceRef s))"
    using sub by (intro card_mono) (cases "eventSourceRef s", simp_all)
  ultimately show ?thesis using d by (simp add: distinct_card)
qed

text \<open>
  Claim C4. After mounting and any sequence of open, error, retry, visibility, online,
  page-hide, unload and cleanup handlers, at most one transport is not closed, and that
  transport is the one held in \<open>eventSourceRef\<close>; every other transport ever created has
  been closed. The manager therefore never holds more than one usable handle.
\<close>

theorem at_most_one_live_transport:
  "length (live_transports (run (mounted th ok) evs)) \<le> 1
   \<and> set (live_transports (run (mounted th ok) evs))
       \<subseteq> set_option (eventSourceRef (run (mounted th ok) evs))"
  using consistent_reachable [of th ok evs] live_le_1 [of "run (mounted th ok) evs"]
  by (simp add: consistent_def)





lemma attemptCountRef_connect: "attemptCountRef (connect ok s) = attemptCountRef s + 1"
  by (simp add: connect_def Let_def clearRetryTimer_def closeCurrent_def es_close_def
      split: option.splits)

lemma onerror_timer:
  "retryTimerRef (onerror es s) = Some (backoff_delay (attemptCountRef s))"
  "attemptCountRef (onerror es s) = attemptCountRef s"
  by (simp_all add: onerror_def Let_def clearRetryTimer_def es_close_def split: option.splits)

lemma failed_attempts_Suc:
  "failed_attempts (Suc k) s =
     onerror (length (transports (failed_attempts k s))) (connect True (failed_attempts k s))"
  by (simp add: Let_def connect_True_fields)

lemma attemptCountRef_failed_attempts:
  "attemptCountRef (failed_attempts k s) = attemptCountRef s + int k"
proof (induction k)
  case 0
  show ?case by simp
next
  case (Suc k)
  show ?case
    unfolding failed_attempts_Suc by (simp add: onerror_timer attemptCountRef_connect Suc)
qed

lemma retryTimerRef_failed_attempts:
  "retryTimerRef (failed_attempts (Suc k) s) = Some (backoff_delay (attemptCountRef s + int k + 1))"
  unfolding failed_attempts_Suc
  by (simp add: onerror_timer attemptCountRef_connect attemptCountRef_failed_attempts)

lemma backoff_delay_nat: "backoff_delay (int (Suc k)) = min 30000 (1000 * 2 ^ min k 5)"
proof -
  have "min (int (Suc k) - 1) 5 = int (min k 5)" by simp
  then show ?thesis
    unfolding backoff_delay_def by (simp only: power_int_of_nat)
qed

lemma backoff_table:
  "min 30000 (1000 * 2 ^ min k 5) = ([1000, 2000, 4000, 8000, 16000, 30000] ! min k 5 :: rat)"
proof -
  have "min k 5 \<in> {0, 1, 2, 3, 4, 5}" by (auto simp: min_def)
  then show ?thesis by (elim insertE) (simp_all add: nth_Cons')
qed

text \<open>
  Claim C3. Starting with a failure count of 0, the error callback of the \<open>k\<close>-th
  consecutive failed attempt reads the count \<open>k\<close> (raised by the \<open>connect\<close> of that attempt,
  not by the callback) and arms the retry timer with
  \<open>min 30000 (1000 * 2 ^ min (k - 1) 5)\<close> milliseconds: 1000, 2000, 4000, 8000, 16000 and
  then 30000 for the sixth and every later attempt.
\<close>

theorem backoff_sequence:
  assumes "attemptCountRef s = 0" and "0 < k"
  shows "attemptCountRef (failed_attempts k s) = int k
         \<and> retryTimerRef (failed_attempts k s) = Some (min 30000 (1000 * 2 ^ min (k - 1) 5))
         \<and> retryTimerRef (failed_attempts k s)
             = Some ([1000, 2000, 4000, 8000, 16000, 30000] ! min (k - 1) 5)"
proof -
  from assms(2) obtain j where k: "k = Suc j" by (cases k) auto
  have "retryTimerRef (failed_attempts k s) = Some (backoff_delay (int (Suc j)))"
    unfolding k using assms(1)
    by (simp add: retryTimerRef_failed_attempts add.commute del: failed_attempts.simps)
  moreover have "attemptCountRef (failed_attempts k s) = int k"
    using assms(1) by (simp add: attemptCountRef_failed_attempts)
  ultimately show ?thesis
    unfolding k by (simp only: backoff_delay_nat backoff_table diff_Suc_1 simp_thms)
qed

theorem backoff_sequence_witness:
  "attemptCountRef (initial 10000) = 0 \<and> (0::nat) < 7
   \<and> retryTimerRef (failed_attempts 7 (initial 10000)) = Some 30000
   \<and> retryTimerRef (failed_attempts 3 (initial 10000)) = Some 4000"
proof -
  have a: "attemptCountRef (initial 10000) = 0" by (simp add: initial_def)
  have "retryTimerRef (failed_attempts 7 (initial 10000)) = Some 30000"
    using backoff_sequence [OF a, of 7] by simp
  moreover have "retryTimerRef (failed_attempts 3 (initial 10000)) = Some 4000"
    using backoff_sequence [OF a, of 3] by simp
  ultimately show ?thesis using a by simp
qed

text \<open>
  Claim C10. When the error callback runs after the open callback reset the counter and
  no \<open>connect\<close> has happened since, the exponent is \<open>min (0 - 1) 5 = -1\<close> and the retry
  timer is armed with 500 ms, less than the 1000 ms of the first failed attempt.
\<close>

theorem error_after_open_delay:
  "retryTimerRef (onerror es (onopen s)) = Some (1000 * (2 powi (min (0 - 1) 5)))
   \<and> retryTimerRef (onerror es (onopen s)) = Some 500
   \<and> retryTimerRef (run (mounted th True) [Open 0, Error 0]) = Some 500
   \<and> 500 < backoff_delay 1 \<and> backoff_delay 1 = 1000"
proof -
  have b0: "backoff_delay 0 = 500" by (simp add: backoff_delay_def power_int_def)
  have b1: "backoff_delay 1 = 1000" by (simp add: backoff_delay_def)
  have t0: "transports (mounted th True) = [CONNECTING]"
    by (simp add: mounted_def connect_True_fields closeCurrent_def initial_def)
  have "run (mounted th True) [Open 0, Error 0]
          = onerror 0 (onopen ((mounted th True)\<lparr>transports := [OPEN]\<rparr>))"
    by (simp add: run_def t0 onopen_def)
  then show ?thesis
    using b0 b1 by (simp add: onerror_timer onopen_def backoff_delay_def power_int_def)
qed

text \<open>
  Claim C1. Each call of \<open>connect\<close> raises the generation counter \<open>instanceId\<close> by exactly
  the number of transports it creates: by 1 when the transport is constructed, by 0 when
  construction throws and nothing is created. The open handler and the error handler leave
  the counter as it is.
\<close>

theorem generation_counts_creations:
  "instanceId (connect True s) = instanceId s + 1
   \<and> length (transports (connect True s)) = length (transports s) + 1
   \<and> instanceId (connect False s) = instanceId s
   \<and> length (transports (connect False s)) = length (transports s)
   \<and> instanceId (onopen s) = instanceId s
   \<and> instanceId (onerror es s) = instanceId s
   \<and> instanceId (step s (Open h)) = instanceId s
   \<and> instanceId (step s (Error h)) = instanceId s"
  by (simp add: connect_True_fields connect_False_fields onerror_fields onopen_def
      length_transports_closeCurrent)

section \<open>Properties of the stream emitter\<close>

text \<open>
  Claim C6. \<open>parseLastEventId\<close> returns the header value whenever the
  \<open>Last-Event-ID\<close> header converts to a finite number, whatever the query says; otherwise
  the \<open>lastEventId\<close> query parameter when that is a string converting to a finite number;
  and 0 when neither does (absent, not a string, or not numeric).
\<close>

theorem resume_point_header_preferred:
  "(\<forall>h r. headers req ''last-event-id'' = Some h \<and> toNumber (JStr h) = Fin r
       \<longrightarrow> parseLastEventId toNumber req = r)
   \<and> (\<forall>q r. (\<forall>h. headers req ''last-event-id'' = Some h \<longrightarrow> \<not> isFinite (toNumber (JStr h)))
         \<and> prop_of (query req) ''lastEventId'' = JStr q \<and> toNumber (JStr q) = Fin r
       \<longrightarrow> parseLastEventId toNumber req = r)
   \<and> ((\<forall>h. headers req ''last-event-id'' = Some h \<longrightarrow> \<not> isFinite (toNumber (JStr h)))
        \<and> (\<forall>q. prop_of (query req) ''lastEventId'' = JStr q \<longrightarrow> \<not> isFinite (toNumber (JStr q)))
       \<longrightarrow> parseLastEventId toNumber req = 0)"
  by (auto simp: parseLastEventId_def Let_def isFinite_def split: option.splits jsnumber.splits jv.splits)

theorem resume_point_header_preferred_witness:
  "parseLastEventId example_Number
      (example_request\<lparr>headers := (headers example_request)(''last-event-id'' \<mapsto> ''42''),
                       query := [(''lastEventId'', JStr ''7'')]\<rparr>) = 42
   \<and> parseLastEventId example_Number
      (example_request\<lparr>headers := (headers example_request)(''last-event-id'' \<mapsto> ''abc''),
                       query := [(''lastEventId'', JStr ''7'')]\<rparr>) = 7
   \<and> parseLastEventId example_Number
      (example_request\<lparr>headers := (headers example_request)(''last-event-id'' \<mapsto> ''abc''),
                       query := [(''lastEventId'', JStr ''xyz'')]\<rparr>) = 0
   \<and> parseLastEventId example_Number example_request = 0"
proof -
  let ?r1 = "example_request\<lparr>headers := (headers example_request)(''last-event-id'' \<mapsto> ''42''),
                       query := [(''lastEventId'', JStr ''7'')]\<rparr>"
  let ?r2 = "example_request\<lparr>headers := (headers example_request)(''last-event-id'' \<mapsto> ''abc''),
                       query := [(''lastEventId'', JStr ''7'')]\<rparr>"
  let ?r3 = "example_request\<lparr>headers := (headers example_request)(''last-event-id'' \<mapsto> ''abc''),
                       query := [(''lastEventId'', JStr ''xyz'')]\<rparr>"
  have "parseLastEventId example_Number ?r1 = 42"
    using resume_point_header_preferred [of ?r1 example_Number]
    by (simp add: example_Number_def)
  moreover have "parseLastEventId example_Number ?r2 = 7"
    using resume_point_header_preferred [of ?r2 example_Number]
    by (simp add: example_Number_def isFinite_def prop_of_def)
  moreover have "parseLastEventId example_Number ?r3 = 0"
    using resume_point_header_preferred [of ?r3 example_Number]
    by (simp add: example_Number_def isFinite_def prop_of_def)
  moreover have "parseLastEventId example_Number example_request = 0"
    using resume_point_header_preferred [of example_request example_Number]
    by (simp add: example_request_def prop_of_def)
  ultimately show ?thesis by simp
qed

lemma hdr_cookie_update:
  "k \<noteq> ''cookie'' \<Longrightarrow> hdr (req\<lparr>headers := (headers req)(''cookie'' := c)\<rparr>) k = hdr req k"
  by (simp add: hdr_def)

lemma buildRequestDebug_cookie:
  assumes "map_option length c = map_option length (headers req ''cookie'')"
  shows "buildRequestDebug (req\<lparr>headers := (headers req)(''cookie'' := c)\<rparr>) = buildRequestDebug req"
proof -
  have "hasCookieHeader (req\<lparr>headers := (headers req)(''cookie'' := c)\<rparr>) = hasCookieHeader req"
    using assms by (auto simp: hasCookieHeader_def split: option.splits)
  moreover have "cookieBytes (req\<lparr>headers := (headers req)(''cookie'' := c)\<rparr>) = cookieBytes req"
    using assms by (auto simp: cookieBytes_def split: option.splits)
  ultimately show ?thesis
    by (simp add: buildRequestDebug_def hdr_cookie_update)
qed

lemma parseLastEventId_cookie:
  "parseLastEventId toNumber (req\<lparr>headers := (headers req)(''cookie'' := c)\<rparr>)
     = parseLastEventId toNumber req"
  by (simp add: parseLastEventId_def)

text \<open>
  Claim C9. Replacing the Cookie header of a request by any value of the same presence and
  length leaves the snapshot built by \<open>buildRequestDebug\<close> unchanged, and with it the whole
  initial output of the connection, including the "connected" record that embeds the
  snapshot.
\<close>

theorem snapshot_hides_cookie_value:
  assumes "map_option length c = map_option length (headers req ''cookie'')"
  shows "buildRequestDebug (req\<lparr>headers := (headers req)(''cookie'' := c)\<rparr>) = buildRequestDebug req
         \<and> sse_connect toNumber toString (req\<lparr>headers := (headers req)(''cookie'' := c)\<rparr>) cid d
             = sse_connect toNumber toString req cid d"
  using buildRequestDebug_cookie [OF assms]
  by (simp add: sse_connect_def parseLastEventId_cookie)

theorem snapshot_hides_cookie_value_witness:
  "buildRequestDebug (example_request\<lparr>headers := (headers example_request)(''cookie'' \<mapsto> ''sid=AAAA'')\<rparr>)
     = buildRequestDebug (example_request\<lparr>headers := (headers example_request)(''cookie'' \<mapsto> ''sid=BBBB'')\<rparr>)"
proof -
  let ?r = "example_request\<lparr>headers := (headers example_request)(''cookie'' \<mapsto> ''sid=AAAA'')\<rparr>"
  have "map_option length (Some ''sid=BBBB'') = map_option length (headers ?r ''cookie'')"
    by simp
  from snapshot_hides_cookie_value [OF this, of example_Number example_String "''c-1''" example_date]
  show ?thesis by simp
qed


lemma event_names_append: "event_names (xs @ ys) = event_names xs @ event_names ys"
  by (induction xs rule: event_names.induct) simp_all


lemma application_records_append:
  "application_records (xs @ ys) = application_records xs + application_records ys"
  by (simp add: application_records_def event_names_append)

lemma writeEvent_out:
  "out (writeEvent ev data d c) =
     out c @ [IdLine (nextId c + 1), EventLine ev,
              DataLine (spread (spread [(''connectionId'', JStr (connectionId c))] data) (timestamps d))]"
  by (simp add: writeEvent_def Let_def res_write_def)

lemma writeEvent_fields:
  "nextId (writeEvent ev data d c) = nextId c + 1"
  "writableEnded (writeEvent ev data d c) = writableEnded c"
  "connectionId (writeEvent ev data d c) = connectionId c"
  "clientLastEventId (writeEvent ev data d c) = clientLastEventId c"
  "requestDebug (writeEvent ev data d c) = requestDebug c"
  "closeAfter (writeEvent ev data d c) = closeAfter c"
  "safeInterval (writeEvent ev data d c) = safeInterval c"
  "sentBusinessEvents (writeEvent ev data d c) = sentBusinessEvents c"
  "connectedRepeat (writeEvent ev data d c) = connectedRepeat c"
  "timer (writeEvent ev data d c) = timer c"
  "hb (writeEvent ev data d c) = hb c"
  by (simp_all add: writeEvent_def Let_def res_write_def)

lemma application_records_writeEvent:
  "application_records (out (writeEvent ev data d c)) =
     application_records (out c) + (if ev = connected then 0 else 1)"
  by (simp add: writeEvent_out application_records_append) (simp add: application_records_def)

lemma application_records_writeComment:
  "application_records (out (writeComment t c)) = application_records (out c)"
  by (simp add: writeComment_def res_write_def application_records_append)
    (simp add: application_records_def)

lemma writeComment_fields:
  "nextId (writeComment t c) = nextId c"
  "writableEnded (writeComment t c) = writableEnded c"
  "connectionId (writeComment t c) = connectionId c"
  "clientLastEventId (writeComment t c) = clientLastEventId c"
  "requestDebug (writeComment t c) = requestDebug c"
  "closeAfter (writeComment t c) = closeAfter c"
  "safeInterval (writeComment t c) = safeInterval c"
  "sentBusinessEvents (writeComment t c) = sentBusinessEvents c"
  "connectedRepeat (writeComment t c) = connectedRepeat c"
  "timer (writeComment t c) = timer c"
  "hb (writeComment t c) = hb c"
  by (simp_all add: writeComment_def res_write_def)

lemma cap_reached_nat: "cap_reached (Fin (of_nat n)) (int m) = (0 < n \<and> n \<le> m)"
  by (simp add: cap_reached_def)

lemma cap_reached_Suc: "cap_reached (Fin (of_nat n)) (int m + 1) = (0 < n \<and> n \<le> Suc m)"
  using cap_reached_nat [of n "Suc m"] by (simp add: add.commute)

lemma cap_inv_on_timer:
  assumes "cap_inv n c" "timer c" "0 < n"
  shows "cap_inv n (on_timer r d c)"
proof -
  from assms have lt: "application_records (out c) < n" and ne: "\<not> writableEnded c"
    by (auto simp: cap_inv_def)
  show ?thesis
    using assms(1) lt ne assms(3)
    by (auto simp: on_timer_def Let_def cap_inv_def writeEvent_fields
        application_records_writeEvent cap_reached_Suc)
qed

lemma cap_inv_serve:
  assumes "cap_inv n c" "0 < n"
  shows "cap_inv n (serve c e)"
proof (cases e)
  case (RepeatFired d)
  then show ?thesis
    using assms(1)
    by (simp add: on_connectedRepeat_def cap_inv_def writeEvent_fields
        application_records_writeEvent)
next
  case (HeartbeatFired d)
  then show ?thesis
    using assms(1)
    by (auto simp: on_heartbeat_def cap_inv_def application_records_writeComment
        writeComment_fields)
next
  case (TimerFired r d)
  then show ?thesis using assms by (simp add: cap_inv_on_timer)
next
  case ReqClose
  then show ?thesis using assms(1) by (simp add: on_close_def cap_inv_def)
qed

lemma cap_inv_serve_all: "cap_inv n c \<Longrightarrow> 0 < n \<Longrightarrow> cap_inv n (serve_all c evs)"
  unfolding serve_all_def by (induction evs arbitrary: c) (simp_all add: cap_inv_serve)

lemma serve_all_append: "serve_all c (xs @ ys) = serve_all (serve_all c xs) ys"
  by (simp add: serve_all_def)

lemma ended_serve: "cap_inv n c \<Longrightarrow> writableEnded c \<Longrightarrow> out (serve c e) = out c \<and> writableEnded (serve c e)"
  by (cases e) (auto simp: cap_inv_def on_connectedRepeat_def on_close_def)

lemma ended_serve_all:
  "cap_inv n c \<Longrightarrow> 0 < n \<Longrightarrow> writableEnded c \<Longrightarrow> out (serve_all c evs) = out c"
proof (induction evs arbitrary: c)
  case Nil
  show ?case by (simp add: serve_all_def)
next
  case (Cons e evs)
  have "out (serve_all (serve c e) evs) = out (serve c e)"
    using Cons.prems by (intro Cons.IH) (simp_all add: cap_inv_serve ended_serve)
  then show ?case using Cons.prems by (simp add: serve_all_def ended_serve)
qed

lemma timer_fires_Cons:
  "timer_fires (e # evs) = (case e of TimerFired r d \<Rightarrow> Suc (timer_fires evs) | _ \<Rightarrow> timer_fires evs)"
  by (simp add: timer_fires_def split: sev.splits)

lemma count_no_close:
  assumes "cap_inv n c" "0 < n" "timer c = (\<not> writableEnded c)" "ReqClose \<notin> set evs"
  shows "application_records (out (serve_all c evs)) = min n (application_records (out c) + timer_fires evs)"
  using assms
proof (induction evs arbitrary: c)
  case Nil
  then show ?case by (simp add: serve_all_def timer_fires_def cap_inv_def)
next
  case (Cons e evs)
  have inv': "cap_inv n (serve c e)" using Cons.prems by (simp add: cap_inv_serve)
  have tl: "timer (serve c e) = (\<not> writableEnded (serve c e))"
    using Cons.prems
    by (cases e) (auto simp: on_connectedRepeat_def writeEvent_fields on_heartbeat_def
        writeComment_fields on_timer_def Let_def)
  have IH: "application_records (out (serve_all (serve c e) evs))
              = min n (application_records (out (serve c e)) + timer_fires evs)"
    using Cons.prems inv' tl by (intro Cons.IH) simp_all
  have step: "application_records (out (serve c e)) =
      (case e of TimerFired r d \<Rightarrow> if timer c then Suc (application_records (out c)) else application_records (out c)
       | _ \<Rightarrow> application_records (out c))"
    using Cons.prems
    by (cases e) (auto simp: on_connectedRepeat_def application_records_writeEvent on_heartbeat_def
        application_records_writeComment on_timer_def Let_def)
  have full: "\<not> timer c \<Longrightarrow> application_records (out c) = n"
    using Cons.prems by (auto simp: cap_inv_def)
  have "serve_all c (e # evs) = serve_all (serve c e) evs" by (simp add: serve_all_def)
  then show ?case
    using IH step full by (cases e) (auto simp: timer_fires_Cons min_def)
qed


lemma connected_payload:
  "spread (spread [(''connectionId'', JStr cid)] (connected_data c)) (timestamps d) =
     [ (''connectionId'', JStr cid),
       (''type'', JStr ''connected''),
       (''lastEventId'', JNum (clientLastEventId c)),
       (''clientLastEventId'', JNum (clientLastEventId c)),
       (''request'', JObj (requestDebug c)),
       (''utcIso'', JStr (toISOString d)),
       (''localIso'', JStr (toLocalString d)),
       (''tzOffsetMinutes'', JNum (of_int (- getTimezoneOffset d))),
       (''epochMs'', JNum (of_int (getTime d))) ]"
  by (simp add: spread_def connected_data_def timestamps_def)


lemma sse_connect_fields:
  "out (sse_connect toNumber toString req cid d) =
     [ Text (CHR '':'' # replicate 2048 CHR '' '' @ [CHR 0x0A]),
       Text (''retry: 3000'' @ [CHR 0x0A, CHR 0x0A]),
       IdLine (parseLastEventId toNumber req + 1),
       EventLine connected,
       DataLine
         [ (''connectionId'', JStr cid),
           (''type'', JStr ''connected''),
           (''lastEventId'', JNum (parseLastEventId toNumber req)),
           (''clientLastEventId'', JNum (parseLastEventId toNumber req)),
           (''request'', JObj (buildRequestDebug req)),
           (''utcIso'', JStr (toISOString d)),
           (''localIso'', JStr (toLocalString d)),
           (''tzOffsetMinutes'', JNum (of_int (- getTimezoneOffset d))),
           (''epochMs'', JNum (of_int (getTime d))) ] ]"
  "nextId (sse_connect toNumber toString req cid d) = parseLastEventId toNumber req + 1"
  "clientLastEventId (sse_connect toNumber toString req cid d) = parseLastEventId toNumber req"
  "closeAfter (sse_connect toNumber toString req cid d)
     = toNumber (nullish (prop_of (query req) ''closeAfter'') (JNum 0))"
  "sentBusinessEvents (sse_connect toNumber toString req cid d) = 0"
  "writableEnded (sse_connect toNumber toString req cid d) = False"
  "timer (sse_connect toNumber toString req cid d) = True"
  "connectedRepeat (sse_connect toNumber toString req cid d) = True"
  "connectionId (sse_connect toNumber toString req cid d) = cid"
  "requestDebug (sse_connect toNumber toString req cid d) = buildRequestDebug req"
  by (simp_all add: sse_connect_def Let_def writeEvent_out writeEvent_fields connected_payload)

lemma cap_inv_sse_connect:
  assumes "toNumber (nullish (prop_of (query req) ''closeAfter'') (JNum 0)) = Fin (of_nat n)"
    and "0 < n"
  shows "cap_inv n (sse_connect toNumber toString req cid d)"
  using assms by (simp add: cap_inv_def sse_connect_fields application_records_def)

text \<open>
  Claim C7. For a connection whose cap \<open>closeAfter\<close> is \<open>n > 0\<close>, under any interleaving
  of the repeat timeout, heartbeats, event-timer ticks and client close: never more than
  \<open>n\<close> application records are written, and the counter equals the number of application
  records, so "connected" records and heartbeat comments are not counted. As long as the
  client has not closed, the number of application records is the number of ticks capped
  at \<open>n\<close>, the stream is ended exactly when \<open>n\<close> ticks have run, that is in the tick that
  writes the \<open>n\<close>-th record, and nothing is written after the end. This holds with
  heartbeats disabled or enabled.
\<close>

theorem cap_enforced:
  fixes toNumber :: "jv \<Rightarrow> jsnumber" and toString :: "jv \<Rightarrow> string"
    and req :: request and cid :: string and d :: jsdate
  assumes "toNumber (nullish (prop_of (query req) ''closeAfter'') (JNum 0)) = Fin (of_nat n)"
    and "0 < n"
  defines "c0 \<equiv> sse_connect toNumber toString req cid d"
  shows "application_records (out (serve_all c0 evs)) \<le> n
    \<and> sentBusinessEvents (serve_all c0 evs) = int (application_records (out (serve_all c0 evs)))
    \<and> (ReqClose \<notin> set evs \<longrightarrow>
          application_records (out (serve_all c0 evs)) = min n (timer_fires evs)
          \<and> writableEnded (serve_all c0 evs) = (n \<le> timer_fires evs))
    \<and> (writableEnded (serve_all c0 evs) \<longrightarrow>
          out (serve_all c0 (evs @ later)) = out (serve_all c0 evs))"
proof -
  have inv0: "cap_inv n c0"
    unfolding c0_def using assms(1,2) by (rule cap_inv_sse_connect)
  have inv: "cap_inv n (serve_all c0 evs)"
    using inv0 assms(2) by (rule cap_inv_serve_all)
  have t0: "timer c0 = (\<not> writableEnded c0)"
    by (simp add: c0_def sse_connect_fields)
  have a0: "application_records (out c0) = 0"
    by (simp add: c0_def sse_connect_fields application_records_def)
  have cnt: "application_records (out (serve_all c0 evs)) = min n (timer_fires evs)"
    if "ReqClose \<notin> set evs"
    using count_no_close [OF inv0 assms(2) t0 that] a0 by simp
  have fin: "out (serve_all c0 (evs @ later)) = out (serve_all c0 evs)"
    if "writableEnded (serve_all c0 evs)"
    unfolding serve_all_append using inv assms(2) that by (rule ended_serve_all)
  show ?thesis
    using inv cnt fin by (auto simp: cap_inv_def)
qed

theorem cap_enforced_witness:
  "application_records (out (serve_all
      (sse_connect example_Number example_String
         (example_request\<lparr>query := [(''closeAfter'', JStr ''5''), (''heartbeat'', JStr ''0'')]\<rparr>)
         ''c-1'' example_date)
      [TimerFired example_draw example_date, RepeatFired example_date,
       TimerFired example_draw example_date, TimerFired example_draw example_date,
       TimerFired example_draw example_date, TimerFired example_draw example_date,
       TimerFired example_draw example_date])) = 5
   \<and> writableEnded (serve_all
      (sse_connect example_Number example_String
         (example_request\<lparr>query := [(''closeAfter'', JStr ''5''), (''heartbeat'', JStr ''0'')]\<rparr>)
         ''c-1'' example_date)
      [TimerFired example_draw example_date, RepeatFired example_date,
       TimerFired example_draw example_date, TimerFired example_draw example_date,
       TimerFired example_draw example_date, TimerFired example_draw example_date,
       TimerFired example_draw example_date])"
proof -
  let ?req = "example_request\<lparr>query := [(''closeAfter'', JStr ''5''), (''heartbeat'', JStr ''0'')]\<rparr>"
  let ?evs = "[TimerFired example_draw example_date, RepeatFired example_date,
       TimerFired example_draw example_date, TimerFired example_draw example_date,
       TimerFired example_draw example_date, TimerFired example_draw example_date,
       TimerFired example_draw example_date]"
  have cap: "example_Number (nullish (prop_of (query ?req) ''closeAfter'') (JNum 0)) = Fin (of_nat 5)"
    by (simp add: example_Number_def nullish_def prop_of_def)
  have pos: "(0::nat) < 5" by simp
  have fires: "timer_fires ?evs = 6" by (simp add: timer_fires_def)
  have noclose: "ReqClose \<notin> set ?evs" by simp
  note inst = cap_enforced [where toNumber = example_Number and req = ?req and n = 5
      and toString = example_String and cid = "''c-1''" and d = example_date and evs = ?evs
      and later = "[]", OF cap pos]
  from inst [THEN conjunct2, THEN conjunct2, THEN conjunct1, THEN mp, OF noclose]
  show ?thesis unfolding fires by simp
qed























section \<open>Properties of the consumer handler\<close>

lemma truthy_member_type: "truthy v \<Longrightarrow> \<exists>t. member_type v = Inr t"
  by (cases v) simp_all

lemma handler_malformed:
  assumes "\<not> well_formed_task parse evt"
  shows "handler parse w evt = Inr (w\<lparr>errorCount := errorCount w + 1\<rparr>)"
proof (cases "parse (fst evt)")
  case (Inl e)
  then show ?thesis by (simp add: handler_def safeJsonParse_def)
next
  case (Inr v)
  with assms have nt: "member_type v \<noteq> Inr (JStr ''task'')"
    by (simp add: well_formed_task_def)
  show ?thesis
  proof (cases "truthy v")
    case False
    then show ?thesis using Inr by (simp add: handler_def safeJsonParse_def)
  next
    case True
    then obtain t where t: "member_type v = Inr t" using truthy_member_type by blast
    with nt have "t \<noteq> JStr ''task''" by simp
    then show ?thesis using Inr True t by (simp add: handler_def safeJsonParse_def)
  qed
qed

lemma well_formed_truthy:
  "parse (fst evt) = Inr v \<Longrightarrow> member_type v = Inr (JStr ''task'') \<Longrightarrow> truthy v"
  by (cases v) simp_all

lemma handler_well_formed:
  assumes "well_formed_task parse evt"
  shows "\<exists>v. parse (fst evt) = Inr v \<and>
    handler parse w evt =
      Inr (w\<lparr>eventCount := eventCount w + 1,
              tasks := take 20 (spread (own_props v) [(''receivedAt'', JNum (of_int (snd evt)))]
                                # tasks w)\<rparr>)"
proof -
  from assms obtain v where v: "parse (fst evt) = Inr v" "member_type v = Inr (JStr ''task'')"
    by (auto simp: well_formed_task_def split: sum.splits)
  have "truthy v" using v by (rule well_formed_truthy)
  then show ?thesis using v by (simp add: handler_def safeJsonParse_def)
qed

lemma handler_total: "\<exists>w'. handler parse w evt = Inr w'"
proof (cases "well_formed_task parse evt")
  case True
  then show ?thesis using handler_well_formed [of parse evt w] by blast
next
  case False
  then show ?thesis by (simp add: handler_malformed)
qed

lemma dispatch_two:
  assumes "tasks w = tasks v" "eventCount w = eventCount v"
  shows "\<exists>w1 v1. dispatch parse w evts = Inr w1
           \<and> dispatch parse v (filter (well_formed_task parse) evts) = Inr v1
           \<and> tasks w1 = tasks v1 \<and> eventCount w1 = eventCount v1
           \<and> errorCount w1 = errorCount w
                 + int (length (filter (\<lambda>e. \<not> well_formed_task parse e) evts))
           \<and> errorCount v1 = errorCount v"
  using assms
proof (induction evts arbitrary: w v)
  case Nil
  then show ?case by simp
next
  case (Cons evt evts)
  show ?case
  proof (cases "well_formed_task parse evt")
    case False
    let ?w = "w\<lparr>errorCount := errorCount w + 1\<rparr>"
    have h: "handler parse w evt = Inr ?w" using False by (rule handler_malformed)
    have "tasks ?w = tasks v" "eventCount ?w = eventCount v" using Cons.prems by simp_all
    from Cons.IH [OF this] obtain w1 v1 where
      "dispatch parse ?w evts = Inr w1"
      "dispatch parse v (filter (well_formed_task parse) evts) = Inr v1"
      "tasks w1 = tasks v1" "eventCount w1 = eventCount v1"
      "errorCount w1 = errorCount ?w + int (length (filter (\<lambda>e. \<not> well_formed_task parse e) evts))"
      "errorCount v1 = errorCount v" by blast
    then show ?thesis using False h by simp
  next
    case True
    from handler_well_formed [OF True, of w] obtain x where
      hw: "handler parse w evt = Inr (w\<lparr>eventCount := eventCount w + 1,
              tasks := take 20 (spread (own_props x) [(''receivedAt'', JNum (of_int (snd evt)))]
                                # tasks w)\<rparr>)" (is "_ = Inr ?w")
      and px: "parse (fst evt) = Inr x" by blast
    from handler_well_formed [OF True, of v] px have
      hv: "handler parse v evt = Inr (v\<lparr>eventCount := eventCount v + 1,
              tasks := take 20 (spread (own_props x) [(''receivedAt'', JNum (of_int (snd evt)))]
                                # tasks v)\<rparr>)" (is "_ = Inr ?v")
      by auto
    have "tasks ?w = tasks ?v" "eventCount ?w = eventCount ?v" using Cons.prems by simp_all
    from Cons.IH [OF this] obtain w1 v1 where
      "dispatch parse ?w evts = Inr w1"
      "dispatch parse ?v (filter (well_formed_task parse) evts) = Inr v1"
      "tasks w1 = tasks v1" "eventCount w1 = eventCount v1"
      "errorCount w1 = errorCount ?w + int (length (filter (\<lambda>e. \<not> well_formed_task parse e) evts))"
      "errorCount v1 = errorCount ?v" by blast
    then show ?thesis using True hw hv by simp
  qed
qed

text \<open>
  Claim C8. The listener never throws. A record whose data does not parse, or whose parsed
  value has a \<open>type\<close> other than "task" (or none), adds one to \<open>errorCount\<close> and changes
  nothing else. Dispatching a sequence of records succeeds and leaves the task list and
  \<open>eventCount\<close> exactly as dispatching only its well-formed records would, while
  \<open>errorCount\<close> grows by the number of malformed ones.
\<close>

theorem malformed_records_counted_not_thrown:
  "(\<exists>w'. handler parse w evt = Inr w')
   \<and> (\<forall>e. parse (fst evt) = Inl e \<longrightarrow>
         handler parse w evt = Inr (w\<lparr>errorCount := errorCount w + 1\<rparr>))
   \<and> (\<forall>v. parse (fst evt) = Inr v \<and> member_type v \<noteq> Inr (JStr ''task'') \<longrightarrow>
         handler parse w evt = Inr (w\<lparr>errorCount := errorCount w + 1\<rparr>))
   \<and> (\<exists>w1 w2. dispatch parse w evts = Inr w1
         \<and> dispatch parse w (filter (well_formed_task parse) evts) = Inr w2
         \<and> tasks w1 = tasks w2 \<and> eventCount w1 = eventCount w2
         \<and> errorCount w1 = errorCount w
               + int (length (filter (\<lambda>e. \<not> well_formed_task parse e) evts))
         \<and> errorCount w2 = errorCount w)"
proof -
  have a: "\<exists>w'. handler parse w evt = Inr w'" by (rule handler_total)
  have b: "handler parse w evt = Inr (w\<lparr>errorCount := errorCount w + 1\<rparr>)"
    if "parse (fst evt) = Inl e" for e
    using that by (intro handler_malformed) (simp add: well_formed_task_def)
  have c: "handler parse w evt = Inr (w\<lparr>errorCount := errorCount w + 1\<rparr>)"
    if "parse (fst evt) = Inr v \<and> member_type v \<noteq> Inr (JStr ''task'')" for v
    using that by (intro handler_malformed) (simp add: well_formed_task_def)
  have d: "\<exists>w1 w2. dispatch parse w evts = Inr w1
         \<and> dispatch parse w (filter (well_formed_task parse) evts) = Inr w2
         \<and> tasks w1 = tasks w2 \<and> eventCount w1 = eventCount w2
         \<and> errorCount w1 = errorCount w
               + int (length (filter (\<lambda>e. \<not> well_formed_task parse e) evts))
         \<and> errorCount w2 = errorCount w"
    by (rule dispatch_two) simp_all
  from a b c d show ?thesis by blast
qed


theorem malformed_records_counted_not_thrown_witness:
  "handler example_parse example_widget (''{oops'', 7)
     = Inr (example_widget\<lparr>errorCount := errorCount example_widget + 1\<rparr>)
   \<and> handler example_parse example_widget (notification_json, 8)
     = Inr (example_widget\<lparr>errorCount := errorCount example_widget + 1\<rparr>)
   \<and> dispatch example_parse example_widget [(task_json, 1), (''{oops'', 2), (task_json, 3)]
     = Inr \<lparr> tasks = [ [(''type'', JStr ''task''), (''taskId'', JStr ''t-1''), (''receivedAt'', JNum 3)],
                        [(''type'', JStr ''task''), (''taskId'', JStr ''t-1''), (''receivedAt'', JNum 1)] ],
              eventCount = 2, errorCount = 1 \<rparr>"
proof -
  note th = malformed_records_counted_not_thrown
  have p1: "example_parse (fst (''{oops'', 7::int)) = Inl SyntaxError"
    by (simp add: example_parse_def task_json_def notification_json_def quoted_def)
  have p2: "example_parse (fst (notification_json, 8::int)) = Inr (JObj [(''type'', JStr ''notification'')])
            \<and> member_type (JObj [(''type'', JStr ''notification'')]) \<noteq> Inr (JStr ''task'')"
    by (simp add: example_parse_def task_json_def notification_json_def quoted_def prop_of_def)
  have a: "handler example_parse example_widget (''{oops'', 7)
     = Inr (example_widget\<lparr>errorCount := errorCount example_widget + 1\<rparr>)"
    using th [of example_parse example_widget "(''{oops'', 7)" "[]",
        THEN conjunct2, THEN conjunct1, THEN spec, THEN mp, OF p1] .
  have b: "handler example_parse example_widget (notification_json, 8)
     = Inr (example_widget\<lparr>errorCount := errorCount example_widget + 1\<rparr>)"
    using th [of example_parse example_widget "(notification_json, 8)" "[]",
        THEN conjunct2, THEN conjunct2, THEN conjunct1, THEN spec, THEN mp, OF p2] .
  have c: "dispatch example_parse example_widget [(task_json, 1), (''{oops'', 2), (task_json, 3)]
     = Inr \<lparr> tasks = [ [(''type'', JStr ''task''), (''taskId'', JStr ''t-1''), (''receivedAt'', JNum 3)],
                        [(''type'', JStr ''task''), (''taskId'', JStr ''t-1''), (''receivedAt'', JNum 1)] ],
              eventCount = 2, errorCount = 1 \<rparr>"
    by (simp add: handler_def safeJsonParse_def example_parse_def task_json_def
        notification_json_def quoted_def prop_of_def spread_def example_widget_def Let_def)
  from a b c show ?thesis by (intro conjI)
qed

end
